theory Spec2Isabelle
  imports Main
begin

section \<open>The Encoder: \<open>src/utils/imageUtils.ts\<close>\<close>

text \<open>
  A browser \<open>File\<close>, as far as the program looks at it: its name and its declared media
  type (\<open>file.type\<close>). The bytes stay with the browser; what the \<open>FileReader\<close> makes of
  them arrives as an event.
\<close>

record File =
  name :: string
  type :: string

text \<open>
  A value that a promise rejects with, or that a \<open>throw\<close> throws: an instance of \<open>Error\<close>
  with its \<open>message\<close>, or any other value (such as the \<open>ProgressEvent\<close> that
  \<open>reader.onerror\<close> receives).
\<close>

datatype thrown = ErrorObject string | OtherValue

text \<open>
  What the \<open>FileReader\<close> reports after \<open>readAsDataURL\<close>: \<open>onload\<close> with
  \<open>reader.result\<close>, or \<open>onerror\<close> with the value it hands to the callback.
\<close>

datatype read_outcome = Loaded string | ReadFailed thrown

text \<open>
  \<open>String.prototype.split\<close> with a one-character separator: the pieces between the
  separators, all of them; a string without the separator is its own single piece, and the
  empty string gives one empty piece.
\<close>

fun split :: "char \<Rightarrow> string \<Rightarrow> string list" where
  "split c [] = [[]]"
| "split c (x # xs) =
     (if x = c then [] # split c xs
      else (case split c xs of
              [] \<Rightarrow> [[x]]
            | y # ys \<Rightarrow> (x # y) # ys))"

text \<open>Indexing an array: \<open>undefined\<close> (here \<open>None\<close>) out of range.\<close>

definition index :: "'a list \<Rightarrow> nat \<Rightarrow> 'a option" where
  "index xs n = (if n < length xs then Some (xs ! n) else None)"

text \<open>
  \<open>fileToBase64\<close>, as a function of what the reader reports. \<open>if (base64String)\<close> is
  false for \<open>undefined\<close> and for the empty string.
\<close>

definition fileToBase64 :: "File \<Rightarrow> read_outcome \<Rightarrow> thrown + (string \<times> string)" where
  "fileToBase64 f r =
     (case r of
        Loaded result \<Rightarrow>
          (case index (split CHR '','' result) 1 of
             Some base64String \<Rightarrow>
               if base64String \<noteq> [] then Inr (base64String, type f)
               else Inl (ErrorObject ''Failed to read base64 string from file.'')
           | None \<Rightarrow> Inl (ErrorObject ''Failed to read base64 string from file.''))
      | ReadFailed e \<Rightarrow> Inl e)"

text \<open>
  The words of the specification for the content: the substring after the first comma.
  This is the specification's reading, kept apart from the code above.
\<close>

definition afterFirstComma :: "string \<Rightarrow> string" where
  "afterFirstComma s = tl (dropWhile (\<lambda>x. x \<noteq> CHR '','') s)"

text \<open>The piece that starts after the first comma and stops before the next one.\<close>

definition secondPiece :: "string \<Rightarrow> string" where
  "secondPiece s = takeWhile (\<lambda>x. x \<noteq> CHR '','') (afterFirstComma s)"

section \<open>The controller: the \<open>App\<close> component\<close>

text \<open>
  An enhancement attempt that is suspended at one of its two \<open>await\<close>s, with the values
  its closure holds: at \<open>await fileToBase64(originalFile)\<close> the file and the prompt, at
  \<open>await editImageWithGemini(base64, mimeType, prompt)\<close> the three arguments.
\<close>

datatype task = AwaitEncoder File string | AwaitClient string string string

text \<open>The calls to the two collaborators, in the order they are issued.\<close>

datatype call = EncodeCall File | SubmitCall string string string

text \<open>
  The six \<open>useState\<close> cells of the component, and around them what the claims need of
  the browser: the attempts in flight, the object URLs that \<open>URL.createObjectURL\<close> has
  created and nothing has revoked, and the calls issued so far.
\<close>

record app =
  originalFile :: "File option"
  originalImageUrl :: "string option"
  editedImageUrl :: "string option"
  prompt :: string
  isLoading :: bool
  error :: "string option"
  pending :: "task list"
  objectUrls :: "string list"
  calls :: "call list"

definition init :: app where
  "init = \<lparr>originalFile = None, originalImageUrl = None, editedImageUrl = None,
            prompt = [], isLoading = False, error = None,
            pending = [], objectUrls = [], calls = []\<rparr>"

text \<open>\<open>file.type.startsWith('image/')\<close>.\<close>

definition startsWith :: "string \<Rightarrow> string \<Rightarrow> bool" where
  "startsWith s p = (take (length p) s = p)"

text \<open>
  \<open>handleImageUpload\<close>. The first argument is \<open>event.target.files?.[0]\<close>, the second the
  string that \<open>URL.createObjectURL(file)\<close> returns when it is called. The source calls
  \<open>createObjectURL\<close> and never \<open>revokeObjectURL\<close>.
\<close>

definition handleImageUpload :: "File option \<Rightarrow> string \<Rightarrow> app \<Rightarrow> app" where
  "handleImageUpload fileOpt url w =
     (case fileOpt of
        None \<Rightarrow> w
      | Some f \<Rightarrow>
          if \<not> startsWith (type f) ''image/''
          then w\<lparr>error := Some ''Please upload a valid image file.''\<rparr>
          else w\<lparr>originalFile := Some f,
                 originalImageUrl := Some url,
                 objectUrls := objectUrls w @ [url],
                 editedImageUrl := None,
                 error := None\<rparr>)"

text \<open>The \<open>onChange\<close> of the text area: \<open>setPrompt(e.target.value)\<close>.\<close>

definition setPrompt :: "string \<Rightarrow> app \<Rightarrow> app" where
  "setPrompt v w = w\<lparr>prompt := v\<rparr>"

text \<open>
  \<open>handleEnhanceClick\<close> up to its first \<open>await\<close>: the guard, the three setters, and the
  call of \<open>fileToBase64\<close>, which leaves the attempt suspended.
\<close>

definition handleEnhanceClick :: "app \<Rightarrow> app" where
  "handleEnhanceClick w =
     (case originalFile w of
        None \<Rightarrow> w\<lparr>error := Some ''Please upload an image and enter a prompt.''\<rparr>
      | Some f \<Rightarrow>
          if prompt w = []
          then w\<lparr>error := Some ''Please upload an image and enter a prompt.''\<rparr>
          else w\<lparr>isLoading := True, error := None, editedImageUrl := None,
                 pending := pending w @ [AwaitEncoder f (prompt w)],
                 calls := calls w @ [EncodeCall f]\<rparr>)"

text \<open>\<open>const isButtonDisabled = !originalFile || !prompt || isLoading\<close>.\<close>

definition isButtonDisabled :: "app \<Rightarrow> bool" where
  "isButtonDisabled w = (originalFile w = None \<or> prompt w = [] \<or> isLoading w)"

text \<open>
  A click on the button: \<open>onClick={handleEnhanceClick}\<close> with
  \<open>disabled={isButtonDisabled}\<close>. A disabled button delivers no click.
\<close>

definition clickEnhance :: "app \<Rightarrow> app" where
  "clickEnhance w = (if isButtonDisabled w then w else handleEnhanceClick w)"

text \<open>The \<open>catch\<close> block, followed by \<open>finally\<close>; the attempt at index \<open>i\<close> is over.\<close>

definition errorMessage :: "thrown \<Rightarrow> string" where
  "errorMessage err =
     (case err of ErrorObject m \<Rightarrow> m | OtherValue \<Rightarrow> ''An unknown error occurred.'')"

definition dropTask :: "nat \<Rightarrow> task list \<Rightarrow> task list" where
  "dropTask i ts = take i ts @ drop (Suc i) ts"

definition catchFinally :: "nat \<Rightarrow> thrown \<Rightarrow> app \<Rightarrow> app" where
  "catchFinally i err w =
     w\<lparr>error := Some (''Failed to enhance image. '' @ errorMessage err),
       isLoading := False,
       pending := dropTask i (pending w)\<rparr>"

text \<open>
  The reader of attempt \<open>i\<close> reports: \<open>fileToBase64\<close> settles, and the attempt either goes
  on to call \<open>editImageWithGemini\<close> or lands in \<open>catch\<close>. An event for an attempt that is
  not waiting for it does not happen.
\<close>

definition encoderSettles :: "nat \<Rightarrow> read_outcome \<Rightarrow> app \<Rightarrow> app" where
  "encoderSettles i r w =
     (case index (pending w) i of
        Some (AwaitEncoder f p) \<Rightarrow>
          (case fileToBase64 f r of
             Inr (base64, mimeType) \<Rightarrow>
               w\<lparr>pending := (pending w)[i := AwaitClient base64 mimeType p],
                  calls := calls w @ [SubmitCall base64 mimeType p]\<rparr>
           | Inl err \<Rightarrow> catchFinally i err w)
      | _ \<Rightarrow> w)"

text \<open>
  How \<open>editImageWithGemini\<close> settles: it resolves with a string or with nothing, or it
  rejects.
\<close>

datatype client_outcome = Resolves "string option" | Rejects thrown

text \<open>
  The rest of the \<open>try\<close> block after the second \<open>await\<close>. \<open>if (editedBase64)\<close> is false
  for \<open>null\<close> and for the empty string, and then the block throws.
\<close>

definition clientSettles :: "nat \<Rightarrow> client_outcome \<Rightarrow> app \<Rightarrow> app" where
  "clientSettles i r w =
     (case index (pending w) i of
        Some (AwaitClient base64 mimeType p) \<Rightarrow>
          (case r of
             Resolves (Some editedBase64) \<Rightarrow>
               if editedBase64 \<noteq> []
               then w\<lparr>editedImageUrl := Some (''data:image/png;base64,'' @ editedBase64),
                       isLoading := False,
                       pending := dropTask i (pending w)\<rparr>
               else catchFinally i
                      (ErrorObject ''The API did not return an image. Please try a different prompt.'') w
           | Resolves None \<Rightarrow>
               catchFinally i
                 (ErrorObject ''The API did not return an image. Please try a different prompt.'') w
           | Rejects err \<Rightarrow> catchFinally i err w)
      | _ \<Rightarrow> w)"

text \<open>
  Everything that can happen to the component: the three user actions, and the two
  collaborators settling for an attempt in flight.
\<close>

datatype event =
    SelectFile "File option" string
  | ChangePrompt string
  | ClickEnhance
  | EncoderSettles nat read_outcome
  | ClientSettles nat client_outcome

fun step :: "event \<Rightarrow> app \<Rightarrow> app" where
  "step (SelectFile fileOpt url) w = handleImageUpload fileOpt url w"
| "step (ChangePrompt v) w = setPrompt v w"
| "step ClickEnhance w = clickEnhance w"
| "step (EncoderSettles i r) w = encoderSettles i r w"
| "step (ClientSettles i r) w = clientSettles i r w"

fun run :: "event list \<Rightarrow> app \<Rightarrow> app" where
  "run [] w = w"
| "run (e # es) w = run es (step e w)"

text \<open>A selection that \<open>handleImageUpload\<close> accepts, and one that it turns down.\<close>

fun validSelect :: "event \<Rightarrow> bool" where
  "validSelect (SelectFile (Some f) url) = startsWith (type f) ''image/''"
| "validSelect e = False"

fun invalidSelect :: "event \<Rightarrow> bool" where
  "invalidSelect (SelectFile (Some f) url) = (\<not> startsWith (type f) ''image/'')"
| "invalidSelect e = False"

section \<open>Invariants of the reachable states\<close>

text \<open>
  What holds in every state the component reaches: the loading flag is set exactly while
  an attempt is in flight, at most one attempt is in flight, no edited image is shown
  while loading, and the original file and its URL are set together.
\<close>

definition consistent :: "app \<Rightarrow> bool" where
  "consistent w =
     ((isLoading w \<longleftrightarrow> pending w \<noteq> []) \<and> length (pending w) \<le> 1 \<and>
      (isLoading w \<longrightarrow> editedImageUrl w = None) \<and>
      (originalFile w = None \<longleftrightarrow> originalImageUrl w = None))"

text \<open>While loading, no error is set.\<close>

definition errorFree :: "app \<Rightarrow> bool" where
  "errorFree w = (isLoading w \<longrightarrow> error w = None)"

text \<open>While loading, the only error that can be set is the one of the file selection.\<close>

definition errorBenign :: "app \<Rightarrow> bool" where
  "errorBenign w =
     (isLoading w \<longrightarrow>
        error w = None \<or> error w = Some ''Please upload a valid image file.'')"

section \<open>Scenarios\<close>

definition catPng :: File where
  "catPng = \<lparr>name = ''cat.png'', type = ''image/png''\<rparr>"

definition dogJpg :: File where
  "dogJpg = \<lparr>name = ''dog.jpg'', type = ''image/jpeg''\<rparr>"

definition docPdf :: File where
  "docPdf = \<lparr>name = ''doc.pdf'', type = ''application/pdf''\<rparr>"

text \<open>Upload \<open>cat.png\<close> and enter the prompt.\<close>

definition uploaded :: "event list" where
  "uploaded = [SelectFile (Some catPng) ''blob:cat'', ChangePrompt ''add a hat'']"

text \<open>Then press the button.\<close>

definition triggered :: "event list" where
  "triggered = uploaded @ [ClickEnhance]"

text \<open>The reader delivers the data URI of the file.\<close>

definition encoded :: "event list" where
  "encoded = [EncoderSettles 0 (Loaded ''data:image/png;base64,AAAA'')]"

text \<open>The Encoder has resolved: the attempt waits for the Edit Client.\<close>

definition submitted :: "event list" where
  "submitted = triggered @ encoded"

text \<open>The same, with a PDF chosen in the file input while the attempt is in flight.\<close>

definition disturbed :: "event list" where
  "disturbed = triggered @ SelectFile (Some docPdf) ''blob:doc'' # encoded"

section \<open>Properties of the Encoder\<close>

lemma split_unfold:
  "split c s = takeWhile (\<lambda>x. x \<noteq> c) s #
     (case dropWhile (\<lambda>x. x \<noteq> c) s of [] \<Rightarrow> [] | y # ys \<Rightarrow> split c ys)"
proof (induction s)
  case Nil
  show ?case by simp
next
  case (Cons x xs)
  show ?case
  proof (cases "x = c")
    case True
    then show ?thesis by simp
  next
    case False
    then show ?thesis by (subst split.simps, subst Cons.IH) simp
  qed
qed

lemma dropWhile_at_separator:
  "c \<in> set s \<Longrightarrow> dropWhile (\<lambda>x. x \<noteq> c) s = c # tl (dropWhile (\<lambda>x. x \<noteq> c) s)"
  by (induction s) auto

lemma dropWhile_no_separator:
  "c \<notin> set s \<Longrightarrow> dropWhile (\<lambda>x. x \<noteq> c) s = []"
  by (induction s) auto

text \<open>
  Element 1 of \<open>result.split(',')\<close>: there is one exactly when the string has a comma, and
  it is the piece between the first comma and the next.
\<close>

lemma index_split_1:
  "index (split CHR '','' s) (Suc 0) =
     (if CHR '','' \<in> set s then Some (secondPiece s) else None)"
proof (cases "CHR '','' \<in> set s")
  case True
  have "split CHR '','' s =
      takeWhile (\<lambda>x. x \<noteq> CHR '','') s # split CHR '','' (afterFirstComma s)"
    by (subst split_unfold, subst dropWhile_at_separator [OF True])
      (simp add: afterFirstComma_def)
  also have "split CHR '','' (afterFirstComma s) = secondPiece s #
      (case dropWhile (\<lambda>x. x \<noteq> CHR '','') (afterFirstComma s) of
         [] \<Rightarrow> [] | y # ys \<Rightarrow> split CHR '','' ys)"
    by (subst split_unfold) (simp add: secondPiece_def)
  finally show ?thesis using True by (simp add: index_def)
next
  case False
  have "split CHR '','' s = [takeWhile (\<lambda>x. x \<noteq> CHR '','') s]"
    by (subst split_unfold) (simp add: dropWhile_no_separator [OF False])
  then show ?thesis using False by (simp add: index_def)
qed

lemma fileToBase64_Loaded:
  "fileToBase64 f (Loaded s) =
     (if CHR '','' \<in> set s \<and> secondPiece s \<noteq> [] then Inr (secondPiece s, type f)
      else Inl (ErrorObject ''Failed to read base64 string from file.''))"
  by (simp add: fileToBase64_def index_split_1)

lemma secondPiece_single_comma:
  "CHR '','' \<notin> set (afterFirstComma s) \<Longrightarrow> secondPiece s = afterFirstComma s"
  by (auto simp: secondPiece_def takeWhile_eq_all_conv)

text \<open>
  C3, as amended. When the read yields a string \<open>s\<close> with a comma, and the piece of \<open>s\<close>
  between the first comma and the next comma (or the end of \<open>s\<close>) is not empty, the
  Encoder resolves with that piece as content and with the file's own declared type as
  media type, whatever the header of \<open>s\<close> says. When \<open>s\<close> has exactly one comma, that piece
  is the whole substring after the comma.
\<close>

theorem fileToBase64_content:
  assumes "CHR '','' \<in> set s" and "secondPiece s \<noteq> []"
  shows "fileToBase64 f (Loaded s) = Inr (secondPiece s, type f) \<and>
         (CHR '','' \<notin> set (afterFirstComma s) \<longrightarrow>
            fileToBase64 f (Loaded s) = Inr (afterFirstComma s, type f))"
proof -
  have "fileToBase64 f (Loaded s) = Inr (secondPiece s, type f)"
    using assms by (simp add: fileToBase64_Loaded)
  then show ?thesis using secondPiece_single_comma [of s] by auto
qed

theorem fileToBase64_content_witness:
  "CHR '','' \<in> set ''data:image/png;base64,AAAA'' \<and>
   secondPiece ''data:image/png;base64,AAAA'' \<noteq> [] \<and>
   CHR '','' \<notin> set (afterFirstComma ''data:image/png;base64,AAAA'') \<and>
   fileToBase64 dogJpg (Loaded ''data:image/png;base64,AAAA'') = Inr (''AAAA'', ''image/jpeg'')"
proof -
  have h1: "CHR '','' \<in> set ''data:image/png;base64,AAAA''" by simp
  have h2: "secondPiece ''data:image/png;base64,AAAA'' \<noteq> []" by code_simp
  have h3: "CHR '','' \<notin> set (afterFirstComma ''data:image/png;base64,AAAA'')" by code_simp
  have v: "afterFirstComma ''data:image/png;base64,AAAA'' = ''AAAA''" by code_simp
  have t: "type dogJpg = ''image/jpeg''" by (simp add: dogJpg_def)
  from fileToBase64_content [OF h1 h2, of dogJpg] h3
  have "fileToBase64 dogJpg (Loaded ''data:image/png;base64,AAAA'') =
          Inr (afterFirstComma ''data:image/png;base64,AAAA'', type dogJpg)"
    by blast
  then show ?thesis using h1 h2 h3 by (simp only: v t simp_thms)
qed

text \<open>
  C3, as stated, fails on a read result with two commas: the content is the piece between
  them, not everything after the first comma.
\<close>

theorem fileToBase64_content_counterexample:
  "CHR '','' \<in> set ''data:image/png;base64,AA,BB'' \<and>
   afterFirstComma ''data:image/png;base64,AA,BB'' = ''AA,BB'' \<and>
   fileToBase64 catPng (Loaded ''data:image/png;base64,AA,BB'') = Inr (''AA'', ''image/png'') \<and>
   fileToBase64 catPng (Loaded ''data:image/png;base64,AA,BB'')
     \<noteq> Inr (afterFirstComma ''data:image/png;base64,AA,BB'', type catPng)"
  by code_simp

text \<open>
  C8, as amended. The Encoder propagates what the reader reports as an error; on a read
  result \<open>s\<close> it rejects with the decode error exactly when \<open>s\<close> has no comma or the piece
  of \<open>s\<close> between the first comma and the next comma (or the end of \<open>s\<close>) is empty, and
  resolves in all other cases, with that piece as content; it never resolves with an
  empty content.
\<close>

theorem fileToBase64_outcomes:
  "fileToBase64 f (ReadFailed e) = Inl e \<and>
   (fileToBase64 f (Loaded s) = Inl (ErrorObject ''Failed to read base64 string from file.'')
      \<longleftrightarrow> CHR '','' \<notin> set s \<or> secondPiece s = []) \<and>
   (fileToBase64 f (Loaded s) = Inr (secondPiece s, type f)
      \<longleftrightarrow> CHR '','' \<in> set s \<and> secondPiece s \<noteq> []) \<and>
   fileToBase64 f r \<noteq> Inr ([], m)"
proof -
  have "fileToBase64 f r \<noteq> Inr ([], m)"
    by (cases r) (auto simp: fileToBase64_Loaded, simp add: fileToBase64_def)
  then show ?thesis
    by (simp add: fileToBase64_Loaded) (simp add: fileToBase64_def)
qed

theorem fileToBase64_outcomes_witness:
  "fileToBase64 catPng (ReadFailed OtherValue) = Inl OtherValue \<and>
   fileToBase64 catPng (Loaded ''data:image/png;base64,'')
     = Inl (ErrorObject ''Failed to read base64 string from file.'') \<and>
   fileToBase64 catPng (Loaded ''data:image/png;base64,'') \<noteq> Inr ([], ''image/png'')"
proof -
  have h: "CHR '','' \<notin> set ''data:image/png;base64,'' \<or> secondPiece ''data:image/png;base64,'' = []"
    by code_simp
  show ?thesis
    using h fileToBase64_outcomes
      [of catPng OtherValue "''data:image/png;base64,''" "Loaded ''data:image/png;base64,''" "''image/png''"]
    by blast
qed

text \<open>
  C8, as stated, fails on a read result whose first comma is followed at once by a second
  one: the substring after the first comma is not empty, and the Encoder rejects with the
  decode error all the same.
\<close>

theorem fileToBase64_outcomes_counterexample:
  "CHR '','' \<in> set ''data:image/png;base64,,BB'' \<and>
   afterFirstComma ''data:image/png;base64,,BB'' = '',BB'' \<and>
   afterFirstComma ''data:image/png;base64,,BB'' \<noteq> [] \<and>
   fileToBase64 catPng (Loaded ''data:image/png;base64,,BB'')
     = Inl (ErrorObject ''Failed to read base64 string from file.'')"
  by code_simp

section \<open>The user actions, one at a time\<close>

text \<open>
  C10. An empty selection (\<open>event.target.files?.[0]\<close> is \<open>undefined\<close>) changes nothing:
  no field of the state moves, and no error is set.
\<close>

theorem empty_selection_unchanged:
  "step (SelectFile None url) w = w"
  by (simp add: handleImageUpload_def)

theorem empty_selection_unchanged_witness:
  "step (SelectFile None ''blob:none'') (run triggered init) = run triggered init"
  using empty_selection_unchanged [of "''blob:none''" "run triggered init"] by simp

text \<open>
  C9. Selecting a file whose declared type does not begin with \<open>image/\<close> sets the error
  to \<open>Please upload a valid image file.\<close> and changes nothing else: the original file
  and its URL are what they were.
\<close>

theorem non_image_selection_rejected:
  assumes "\<not> startsWith (type f) ''image/''"
  shows "step (SelectFile (Some f) url) w = w\<lparr>error := Some ''Please upload a valid image file.''\<rparr> \<and>
         error (step (SelectFile (Some f) url) w) = Some ''Please upload a valid image file.'' \<and>
         originalImageUrl (step (SelectFile (Some f) url) w) = originalImageUrl w \<and>
         originalFile (step (SelectFile (Some f) url) w) = originalFile w"
  using assms by (simp add: handleImageUpload_def)

theorem non_image_selection_rejected_witness:
  "\<not> startsWith (type docPdf) ''image/'' \<and>
   error (step (SelectFile (Some docPdf) ''blob:doc'') (run triggered init))
     = Some ''Please upload a valid image file.'' \<and>
   originalImageUrl (step (SelectFile (Some docPdf) ''blob:doc'') (run triggered init))
     = Some ''blob:cat'' \<and>
   originalFile (step (SelectFile (Some docPdf) ''blob:doc'') (run triggered init))
     = Some catPng"
proof -
  have h: "\<not> startsWith (type docPdf) ''image/''" by code_simp
  have u: "originalImageUrl (run triggered init) = Some ''blob:cat''" by code_simp
  have o: "originalFile (run triggered init) = Some catPng" by code_simp
  show ?thesis
    using h u o
      non_image_selection_rejected [OF h, of "''blob:doc''" "run triggered init"]
    by simp
qed

text \<open>
  C1. When the original file is unset, or the prompt is empty, or \<open>isLoading\<close> is true,
  the button is disabled and pressing it does nothing: the state is the same in every
  field, no attempt is started and no call to the Encoder or the Edit Client is issued.
\<close>

theorem disabled_trigger_noop:
  assumes "originalFile w = None \<or> prompt w = [] \<or> isLoading w"
  shows "step ClickEnhance w = w \<and>
         calls (step ClickEnhance w) = calls w \<and>
         pending (step ClickEnhance w) = pending w"
  using assms by (simp add: clickEnhance_def isButtonDisabled_def)

theorem disabled_trigger_noop_witness:
  "isLoading (run triggered init) \<and>
   step ClickEnhance (run triggered init) = run triggered init \<and>
   calls (step ClickEnhance (run triggered init)) = [EncodeCall catPng]"
proof -
  have h: "isLoading (run triggered init)" by code_simp
  have c: "calls (run triggered init) = [EncodeCall catPng]" by code_simp
  show ?thesis
    using h c disabled_trigger_noop [of "run triggered init"] by simp
qed

text \<open>
  The handler by itself, were it called with the file or the prompt missing, sets an
  error of its own; and it does not look at \<open>isLoading\<close>. The button is its only caller,
  and the button is disabled in exactly these states.
\<close>

lemma handleEnhanceClick_missing_input:
  "originalFile w = None \<or> prompt w = [] \<Longrightarrow>
   handleEnhanceClick w = w\<lparr>error := Some ''Please upload an image and enter a prompt.''\<rparr>"
  by (auto simp: handleEnhanceClick_def split: option.splits)

section \<open>The invariants hold in every reachable state\<close>

lemma run_append: "run (xs @ ys) w = run ys (run xs w)"
  by (induction xs arbitrary: w) simp_all

lemma index_Some: "index xs i = Some x \<Longrightarrow> i < length xs \<and> xs ! i = x"
  by (simp add: index_def split: if_splits)

lemma index_single: "length xs \<le> 1 \<Longrightarrow> index xs i = Some x \<Longrightarrow> xs = [x] \<and> i = 0"
  by (cases xs; cases i) (auto simp: index_def split: if_splits)

lemma consistent_init: "consistent init"
  by (simp add: consistent_def init_def)

lemma consistent_handleImageUpload: "consistent w \<Longrightarrow> consistent (handleImageUpload fo url w)"
  by (auto simp: consistent_def handleImageUpload_def split: option.splits)

lemma consistent_setPrompt: "consistent w \<Longrightarrow> consistent (setPrompt v w)"
  by (simp add: consistent_def setPrompt_def)

lemma consistent_clickEnhance: "consistent w \<Longrightarrow> consistent (clickEnhance w)"
  by (auto simp: consistent_def clickEnhance_def isButtonDisabled_def handleEnhanceClick_def
           split: option.splits)

lemma consistent_catchFinally:
  "consistent w \<Longrightarrow> pending w = [t] \<Longrightarrow> consistent (catchFinally 0 err w)"
  by (simp add: consistent_def catchFinally_def dropTask_def)

lemma consistent_encoderSettles:
  assumes w: "consistent w"
  shows "consistent (encoderSettles i r w)"
proof (cases "index (pending w) i")
  case None
  then show ?thesis using w by (simp add: encoderSettles_def)
next
  case (Some t)
  have p: "pending w = [t]" "i = 0"
    using w index_single [OF _ Some] by (simp_all add: consistent_def)
  show ?thesis
  proof (cases t)
    case (AwaitEncoder f q)
    show ?thesis
    proof (cases "fileToBase64 f r")
      case (Inl err)
      then show ?thesis
        using Some AwaitEncoder p consistent_catchFinally [OF w p(1)]
        by (simp add: encoderSettles_def)
    next
      case (Inr bm)
      then show ?thesis
        using Some AwaitEncoder p w
        by (cases bm) (simp add: encoderSettles_def consistent_def)
    qed
  next
    case (AwaitClient b m q)
    then show ?thesis using Some w by (simp add: encoderSettles_def)
  qed
qed

lemma consistent_clientSettles:
  assumes w: "consistent w"
  shows "consistent (clientSettles i r w)"
proof (cases "index (pending w) i")
  case None
  then show ?thesis using w by (simp add: clientSettles_def)
next
  case (Some t)
  have p: "pending w = [t]" "i = 0"
    using w index_single [OF _ Some] by (simp_all add: consistent_def)
  show ?thesis
  proof (cases t)
    case (AwaitEncoder f q)
    then show ?thesis using Some w by (simp add: clientSettles_def)
  next
    case (AwaitClient b m q)
    show ?thesis
    proof (cases r)
      case (Resolves v)
      then show ?thesis
        using Some AwaitClient p w consistent_catchFinally [OF w p(1)]
        by (cases v) (simp_all add: clientSettles_def consistent_def dropTask_def)
    next
      case (Rejects err)
      then show ?thesis
        using Some AwaitClient p consistent_catchFinally [OF w p(1)]
        by (simp add: clientSettles_def)
    qed
  qed
qed

lemma consistent_step: "consistent w \<Longrightarrow> consistent (step e w)"
  by (cases e)
    (simp_all add: consistent_handleImageUpload consistent_setPrompt consistent_clickEnhance
       consistent_encoderSettles consistent_clientSettles)

lemma consistent_run: "consistent w \<Longrightarrow> consistent (run evs w)"
  by (induction evs arbitrary: w) (simp_all add: consistent_step)

lemma consistent_reachable: "consistent (run evs init)"
  by (rule consistent_run [OF consistent_init])

text \<open>An attempt in flight means the loading flag is set and no edited image is shown.\<close>

lemma in_flight_loading:
  "consistent w \<Longrightarrow> index (pending w) i = Some t \<Longrightarrow> isLoading w \<and> editedImageUrl w = None"
  using index_Some [of "pending w" i t] by (auto simp: consistent_def)

text \<open>In a reachable state the original file is unset exactly when its URL is.\<close>

lemma original_file_and_url:
  "originalFile (run evs init) = None \<longleftrightarrow> originalImageUrl (run evs init) = None"
  using consistent_reachable [of evs] by (simp add: consistent_def)

text \<open>At most one attempt is in flight.\<close>

lemma single_attempt_in_flight: "length (pending (run evs init)) \<le> 1"
  using consistent_reachable [of evs] by (simp add: consistent_def)

section \<open>Loading and the error message\<close>

lemma loading_encoderSettles:
  "isLoading (encoderSettles i r w) \<Longrightarrow> isLoading w \<and> error (encoderSettles i r w) = error w"
  by (auto simp: encoderSettles_def catchFinally_def split: option.splits task.splits sum.splits)

lemma loading_clientSettles:
  "isLoading (clientSettles i r w) \<Longrightarrow> isLoading w \<and> error (clientSettles i r w) = error w"
  by (auto simp: clientSettles_def catchFinally_def
      split: option.splits task.splits client_outcome.splits if_splits)

lemma loading_clickEnhance:
  "isLoading (clickEnhance w) \<Longrightarrow>
     (isLoading w \<and> error (clickEnhance w) = error w) \<or> error (clickEnhance w) = None"
  by (auto simp: clickEnhance_def isButtonDisabled_def handleEnhanceClick_def
      split: option.splits)

lemma errorBenign_step: "errorBenign w \<Longrightarrow> errorBenign (step e w)"
proof (cases e)
  case (SelectFile fo url)
  then show "errorBenign w \<Longrightarrow> ?thesis"
    by (auto simp: errorBenign_def handleImageUpload_def split: option.splits)
next
  case (ChangePrompt v)
  then show "errorBenign w \<Longrightarrow> ?thesis" by (simp add: errorBenign_def setPrompt_def)
next
  case ClickEnhance
  then show "errorBenign w \<Longrightarrow> ?thesis"
    using loading_clickEnhance [of w] by (auto simp: errorBenign_def)
next
  case (EncoderSettles i r)
  then show "errorBenign w \<Longrightarrow> ?thesis"
    using loading_encoderSettles [of i r w] by (auto simp: errorBenign_def)
next
  case (ClientSettles i r)
  then show "errorBenign w \<Longrightarrow> ?thesis"
    using loading_clientSettles [of i r w] by (auto simp: errorBenign_def)
qed

lemma errorBenign_run: "errorBenign w \<Longrightarrow> errorBenign (run evs w)"
  by (induction evs arbitrary: w) (simp_all add: errorBenign_step)

lemma errorBenign_reachable: "errorBenign (run evs init)"
  by (rule errorBenign_run) (simp add: errorBenign_def init_def)

lemma errorFree_step: "errorFree w \<Longrightarrow> \<not> invalidSelect e \<Longrightarrow> errorFree (step e w)"
proof (cases e)
  case (SelectFile fo url)
  then show "errorFree w \<Longrightarrow> \<not> invalidSelect e \<Longrightarrow> ?thesis"
    by (auto simp: errorFree_def handleImageUpload_def split: option.splits)
next
  case (ChangePrompt v)
  then show "errorFree w \<Longrightarrow> ?thesis" by (simp add: errorFree_def setPrompt_def)
next
  case ClickEnhance
  then show "errorFree w \<Longrightarrow> ?thesis"
    using loading_clickEnhance [of w] by (auto simp: errorFree_def)
next
  case (EncoderSettles i r)
  then show "errorFree w \<Longrightarrow> ?thesis"
    using loading_encoderSettles [of i r w] by (auto simp: errorFree_def)
next
  case (ClientSettles i r)
  then show "errorFree w \<Longrightarrow> ?thesis"
    using loading_clientSettles [of i r w] by (auto simp: errorFree_def)
qed

lemma errorFree_run:
  "errorFree w \<Longrightarrow> filter invalidSelect evs = [] \<Longrightarrow> errorFree (run evs w)"
proof (induction evs arbitrary: w)
  case Nil
  then show ?case by simp
next
  case (Cons e es)
  from Cons.prems(2) have e: "\<not> invalidSelect e" and es: "filter invalidSelect es = []"
    by (auto split: if_splits)
  show ?case using Cons.IH [OF errorFree_step [OF Cons.prems(1) e] es] by simp
qed

lemma errorFree_trigger: "\<not> isButtonDisabled w \<Longrightarrow> errorFree (step ClickEnhance w)"
  by (auto simp: errorFree_def clickEnhance_def handleEnhanceClick_def isButtonDisabled_def)

text \<open>
  C2, as amended. In every state reachable from the empty initial state by the user
  actions and the collaborators' answers, in any order, \<open>isLoading\<close> being true implies
  that the error message is null or is the message of the file selection,
  \<open>Please upload a valid image file.\<close>, set by choosing a file that is not an image
  while an attempt is in flight.
\<close>

theorem loading_error_benign:
  assumes "isLoading (run evs init)"
  shows "error (run evs init) = None \<or>
         error (run evs init) = Some ''Please upload a valid image file.''"
  using assms errorBenign_reachable [of evs] by (simp add: errorBenign_def)

theorem loading_error_benign_witness:
  "isLoading (run triggered init) \<and> error (run triggered init) = None"
proof -
  have h: "isLoading (run triggered init)" by code_simp
  have n: "error (run triggered init) \<noteq> Some ''Please upload a valid image file.''"
    by code_simp
  show ?thesis using h n loading_error_benign [OF h] by blast
qed

text \<open>
  C2, as stated, fails: after the trigger, choosing a PDF sets the error while the
  attempt is still loading.
\<close>

theorem loading_error_counterexample:
  "isLoading (run (triggered @ [SelectFile (Some docPdf) ''blob:doc'']) init) \<and>
   error (run (triggered @ [SelectFile (Some docPdf) ''blob:doc'']) init)
     = Some ''Please upload a valid image file.'' \<and>
   error (run (triggered @ [SelectFile (Some docPdf) ''blob:doc'']) init) \<noteq> None"
  by code_simp

section \<open>Object URLs\<close>

lemma objectUrls_step:
  "length (objectUrls (step e w)) = length (objectUrls w) + (if validSelect e then 1 else 0)"
proof (cases e)
  case (SelectFile fo url)
  then show ?thesis by (cases fo) (simp_all add: handleImageUpload_def)
next
  case (ChangePrompt v)
  then show ?thesis by (simp add: setPrompt_def)
next
  case ClickEnhance
  then show ?thesis
    by (simp add: clickEnhance_def handleEnhanceClick_def split: option.splits)
next
  case (EncoderSettles i r)
  then show ?thesis
    by (simp add: encoderSettles_def catchFinally_def split: option.splits task.splits sum.splits)
next
  case (ClientSettles i r)
  then show ?thesis
    by (simp add: clientSettles_def catchFinally_def
        split: option.splits task.splits client_outcome.splits)
qed

lemma objectUrls_run:
  "length (objectUrls (run evs w)) = length (objectUrls w) + length (filter validSelect evs)"
  by (induction evs arbitrary: w) (simp_all add: objectUrls_step)

text \<open>
  C4, as amended. Selecting a valid image file creates a new display handle for it and
  releases none: in every reachable state the number of live object URLs is the number
  of valid image selections made so far.
\<close>

theorem objectUrls_accumulate:
  "length (objectUrls (run evs init)) = length (filter validSelect evs)"
  by (simp add: objectUrls_run init_def)

theorem objectUrls_accumulate_witness:
  "length (objectUrls (run triggered init)) = 1"
proof -
  have "length (filter validSelect triggered) = 1" by code_simp
  then show ?thesis using objectUrls_accumulate [of triggered] by simp
qed

text \<open>C4, as stated, fails: two selections leave two live object URLs.\<close>

theorem objectUrls_counterexample:
  "objectUrls (run [SelectFile (Some catPng) ''blob:cat'', SelectFile (Some dogJpg) ''blob:dog''] init)
     = [''blob:cat'', ''blob:dog''] \<and>
   \<not> length (objectUrls
        (run [SelectFile (Some catPng) ''blob:cat'', SelectFile (Some dogJpg) ''blob:dog''] init)) \<le> 1"
  by code_simp

section \<open>How an enhancement attempt ends\<close>

text \<open>
  C5. In a reachable state with an attempt waiting for the Edit Client, when the client
  resolves with nothing, the state that results has the error
  \<open>Failed to enhance image. The API did not return an image. Please try a different prompt.\<close>,
  no edited image, and \<open>isLoading\<close> false. The state before is any reachable one, so
  whatever the user did while the attempt was in flight is covered.
\<close>

theorem absent_result_final_state:
  assumes "w = run evs init"
    and "index (pending w) i = Some (AwaitClient b m p)"
    and "w' = step (ClientSettles i (Resolves None)) w"
  shows "error w' = Some ''Failed to enhance image. The API did not return an image. Please try a different prompt.'' \<and>
         editedImageUrl w' = None \<and> isLoading w' = False"
proof -
  have "consistent w" using assms(1) by (simp add: consistent_reachable)
  then have "editedImageUrl w = None" using in_flight_loading assms(2) by blast
  then show ?thesis using assms(2,3)
    by (simp add: clientSettles_def catchFinally_def errorMessage_def)
qed

theorem absent_result_final_state_witness:
  "index (pending (run submitted init)) 0 = Some (AwaitClient ''AAAA'' ''image/png'' ''add a hat'') \<and>
   error (step (ClientSettles 0 (Resolves None)) (run submitted init))
     = Some ''Failed to enhance image. The API did not return an image. Please try a different prompt.'' \<and>
   editedImageUrl (step (ClientSettles 0 (Resolves None)) (run submitted init)) = None \<and>
   isLoading (step (ClientSettles 0 (Resolves None)) (run submitted init)) = False"
proof -
  have h: "index (pending (run submitted init)) 0
             = Some (AwaitClient ''AAAA'' ''image/png'' ''add a hat'')"
    by code_simp
  show ?thesis using h absent_result_final_state [OF refl h refl] by blast
qed

text \<open>
  C6, as amended. In a reachable state with an attempt in flight, when the Encoder rejects
  with \<open>e\<close> (the attempt waits for it), or the Edit Client rejects with \<open>e\<close> (the attempt
  waits for that), the state that results has the error \<open>Failed to enhance image. \<close>
  followed by the message of \<open>e\<close> when \<open>e\<close> is an instance of \<open>Error\<close>, also when that
  message is empty, and followed by \<open>An unknown error occurred.\<close> when \<open>e\<close> is any value
  that is not an instance of \<open>Error\<close>; it has no edited image, and \<open>isLoading\<close> is false.
  The fallback goes by \<open>instanceof Error\<close>, not by whether a message is there.
\<close>

theorem rejection_final_state:
  assumes "w = run evs init"
    and "(index (pending w) i = Some (AwaitEncoder f p) \<and> fileToBase64 f r = Inl e \<and>
          w' = step (EncoderSettles i r) w) \<or>
         (index (pending w) i = Some (AwaitClient b m p) \<and>
          w' = step (ClientSettles i (Rejects e)) w)"
  shows "error w' = Some (''Failed to enhance image. '' @
            (case e of ErrorObject M \<Rightarrow> M | OtherValue \<Rightarrow> ''An unknown error occurred.'')) \<and>
         editedImageUrl w' = None \<and> isLoading w' = False"
proof -
  have w: "consistent w" using assms(1) by (simp add: consistent_reachable)
  from assms(2) show ?thesis
  proof
    assume a: "index (pending w) i = Some (AwaitEncoder f p) \<and> fileToBase64 f r = Inl e \<and>
          w' = step (EncoderSettles i r) w"
    then have "editedImageUrl w = None" using in_flight_loading [OF w] by blast
    then show ?thesis using a
      by (simp add: encoderSettles_def catchFinally_def errorMessage_def)
  next
    assume a: "index (pending w) i = Some (AwaitClient b m p) \<and>
          w' = step (ClientSettles i (Rejects e)) w"
    then have "editedImageUrl w = None" using in_flight_loading [OF w] by blast
    then show ?thesis using a
      by (simp add: clientSettles_def catchFinally_def errorMessage_def)
  qed
qed

theorem rejection_final_state_witness:
  "index (pending (run submitted init)) 0 = Some (AwaitClient ''AAAA'' ''image/png'' ''add a hat'') \<and>
   error (step (ClientSettles 0 (Rejects (ErrorObject ''quota exceeded''))) (run submitted init))
     = Some ''Failed to enhance image. quota exceeded'' \<and>
   editedImageUrl (step (ClientSettles 0 (Rejects (ErrorObject ''quota exceeded''))) (run submitted init))
     = None \<and>
   isLoading (step (ClientSettles 0 (Rejects (ErrorObject ''quota exceeded''))) (run submitted init))
     = False"
proof -
  have h: "index (pending (run submitted init)) 0
             = Some (AwaitClient ''AAAA'' ''image/png'' ''add a hat'')"
    by code_simp
  have "(index (pending (run submitted init)) 0 = Some (AwaitEncoder catPng ''add a hat'') \<and>
          fileToBase64 catPng (Loaded []) = Inl (ErrorObject ''quota exceeded'') \<and>
          step (ClientSettles 0 (Rejects (ErrorObject ''quota exceeded''))) (run submitted init)
            = step (EncoderSettles 0 (Loaded [])) (run submitted init)) \<or>
        (index (pending (run submitted init)) 0 = Some (AwaitClient ''AAAA'' ''image/png'' ''add a hat'') \<and>
          step (ClientSettles 0 (Rejects (ErrorObject ''quota exceeded''))) (run submitted init)
            = step (ClientSettles 0 (Rejects (ErrorObject ''quota exceeded''))) (run submitted init))"
    using h by blast
  from rejection_final_state [OF refl this] h show ?thesis by simp
qed

text \<open>
  C6, as stated, fails for an \<open>Error\<close> that carries no message (\<open>new Error()\<close>, whose
  message is the empty string): the error shown is the bare prefix, and the fallback
  message is not used.
\<close>

theorem rejection_final_state_counterexample:
  "index (pending (run submitted init)) 0 = Some (AwaitClient ''AAAA'' ''image/png'' ''add a hat'') \<and>
   error (step (ClientSettles 0 (Rejects (ErrorObject []))) (run submitted init))
     = Some ''Failed to enhance image. '' \<and>
   error (step (ClientSettles 0 (Rejects (ErrorObject []))) (run submitted init))
     \<noteq> Some ''Failed to enhance image. An unknown error occurred.''"
  by code_simp

text \<open>The two ways the Encoder fails, as the user sees them.\<close>

lemma encoder_failures_shown:
  "error (run (triggered @ [EncoderSettles 0 (ReadFailed OtherValue)]) init)
     = Some ''Failed to enhance image. An unknown error occurred.'' \<and>
   error (run (triggered @ [EncoderSettles 0 (Loaded ''garbage'')]) init)
     = Some ''Failed to enhance image. Failed to read base64 string from file.''"
  by code_simp

text \<open>
  C7, as amended. Take an attempt started by a press of the enabled button, and a state
  reached from there in which the attempt waits for the Edit Client. When the client
  resolves with a non-empty base64 value \<open>V\<close>, the state that results has the edited image
  \<open>data:image/png;base64,\<close> followed by \<open>V\<close> (whatever the type of the original),
  \<open>isLoading\<close> false, and the error message it had before, which is null or the message
  of the file selection; it is null whenever no file that is not an image was selected
  while the attempt was in flight.
\<close>

theorem image_result_final_state:
  assumes "w = run (pre @ ClickEnhance # mid) init"
    and "\<not> isButtonDisabled (run pre init)"
    and "index (pending w) i = Some (AwaitClient b m p)"
    and "V \<noteq> []"
    and "w' = step (ClientSettles i (Resolves (Some V))) w"
  shows "editedImageUrl w' = Some (''data:image/png;base64,'' @ V) \<and>
         isLoading w' = False \<and>
         error w' = error w \<and>
         (error w = None \<or> error w = Some ''Please upload a valid image file.'') \<and>
         (filter invalidSelect mid = [] \<longrightarrow> error w' = None)"
proof -
  have "consistent w" using assms(1) by (simp add: consistent_reachable)
  then have l: "isLoading w" using in_flight_loading assms(3) by blast
  have q: "error w = None \<or> error w = Some ''Please upload a valid image file.''"
    using errorBenign_reachable [of "pre @ ClickEnhance # mid"] l assms(1)
    by (simp add: errorBenign_def)
  have s: "editedImageUrl w' = Some (''data:image/png;base64,'' @ V) \<and>
           isLoading w' = False \<and> error w' = error w"
    using assms(3,4,5) by (simp add: clientSettles_def)
  have "error w = None" if "filter invalidSelect mid = []"
  proof -
    have "errorFree (run mid (step ClickEnhance (run pre init)))"
      by (rule errorFree_run [OF errorFree_trigger [OF assms(2)] that])
    then have "errorFree w" using assms(1) by (simp add: run_append)
    then show ?thesis using l by (simp add: errorFree_def)
  qed
  then show ?thesis using q s by simp
qed

theorem image_result_final_state_witness:
  "\<not> isButtonDisabled (run uploaded init) \<and>
   index (pending (run (uploaded @ ClickEnhance # encoded) init)) 0
     = Some (AwaitClient ''AAAA'' ''image/png'' ''add a hat'') \<and>
   filter invalidSelect encoded = [] \<and>
   editedImageUrl (step (ClientSettles 0 (Resolves (Some ''BBBB'')))
       (run (uploaded @ ClickEnhance # encoded) init)) = Some ''data:image/png;base64,BBBB'' \<and>
   isLoading (step (ClientSettles 0 (Resolves (Some ''BBBB'')))
       (run (uploaded @ ClickEnhance # encoded) init)) = False \<and>
   error (step (ClientSettles 0 (Resolves (Some ''BBBB'')))
       (run (uploaded @ ClickEnhance # encoded) init)) = None"
proof -
  have h1: "\<not> isButtonDisabled (run uploaded init)"
    by code_simp
  have h2: "index (pending (run (uploaded @ ClickEnhance # encoded) init)) 0
     = Some (AwaitClient ''AAAA'' ''image/png'' ''add a hat'')"
    by code_simp
  have h3: "filter invalidSelect encoded = []"
    by code_simp
  have h4: "''BBBB'' \<noteq> []" by simp
  from image_result_final_state [OF refl h1 h2 h4 refl] h3
  have "editedImageUrl (step (ClientSettles 0 (Resolves (Some ''BBBB'')))
          (run (uploaded @ ClickEnhance # encoded) init))
            = Some (''data:image/png;base64,'' @ ''BBBB'') \<and>
        isLoading (step (ClientSettles 0 (Resolves (Some ''BBBB'')))
          (run (uploaded @ ClickEnhance # encoded) init)) = False \<and>
        error (step (ClientSettles 0 (Resolves (Some ''BBBB'')))
          (run (uploaded @ ClickEnhance # encoded) init)) = None"
    by blast
  then show ?thesis using h1 h2 h3 by simp
qed

text \<open>
  C7, as stated, fails on the error message: a PDF chosen while the attempt is in flight
  sets the error, and the successful end of the attempt does not clear it.
\<close>

theorem image_result_counterexample:
  "index (pending (run disturbed init)) 0 = Some (AwaitClient ''AAAA'' ''image/png'' ''add a hat'') \<and>
   editedImageUrl (step (ClientSettles 0 (Resolves (Some ''BBBB''))) (run disturbed init))
     = Some ''data:image/png;base64,BBBB'' \<and>
   isLoading (step (ClientSettles 0 (Resolves (Some ''BBBB''))) (run disturbed init)) = False \<and>
   error (step (ClientSettles 0 (Resolves (Some ''BBBB''))) (run disturbed init))
     = Some ''Please upload a valid image file.'' \<and>
   error (step (ClientSettles 0 (Resolves (Some ''BBBB''))) (run disturbed init)) \<noteq> None"
  by code_simp

end
